theory Spec2Isabelle
  imports Main "HOL-Library.Sublist"
begin

section \<open>Strings\<close>

text \<open>
  A JavaScript string is modelled as a \<^typ>\<open>string\<close>, one \<^typ>\<open>char\<close> per code unit:
  the code units are those from U+0000 to U+00FF, and \<open>CHR n\<close> is the code unit
  \<open>n\<close>. The operations below are those of the source on these code units.
  The three characters that \<open>cleanAndEscape\<close> treats specially are named, so that no
  literal in this file needs quoting of its own.
\<close>

definition backslash :: char where
  "backslash = CHR 0x5C"

definition squote :: char where
  "squote = CHR 0x27"

definition dquote :: char where
  "dquote = CHR 0x22"

text \<open>
  \<open>String.prototype.trim\<close> removes white space and line terminators from both ends.
  Up to U+00FF these are tab, line feed, vertical tab, form feed, carriage return, space
  and the no-break space U+00A0.
\<close>

definition isWhiteSpace :: "char \<Rightarrow> bool" where
  "isWhiteSpace c =
     (c \<in> set [CHR 0x09, CHR 0x0A, CHR 0x0B, CHR 0x0C, CHR 0x0D, CHR 0x20, CHR 0xA0])"

definition trim :: "string \<Rightarrow> string" where
  "trim str = rev (dropWhile isWhiteSpace (rev (dropWhile isWhiteSpace str)))"

text \<open>\<open>str.replace(/c/g, rep)\<close> for a pattern that is one literal character.\<close>

definition replaceAll :: "char \<Rightarrow> string \<Rightarrow> string \<Rightarrow> string" where
  "replaceAll c rep str = concat (map (\<lambda>x. if x = c then rep else [x]) str)"

text \<open>
  \<open>str.replace(pat, rep)\<close> for a string pattern: only the first occurrence is
  replaced, wherever it is.
\<close>

fun replaceFirst :: "string \<Rightarrow> string \<Rightarrow> string \<Rightarrow> string" where
  "replaceFirst pat rep [] = (if pat = [] then rep else [])"
| "replaceFirst pat rep (c # cs) =
     (if prefix pat (c # cs) then rep @ drop (length pat) (c # cs)
      else c # replaceFirst pat rep cs)"

text \<open>
  \<open>String.prototype.toLowerCase\<close>, code unit by code unit. Up to U+00FF the letters
  with a lower-case form are \<open>A\<close> to \<open>Z\<close> and U+00C0 to U+00DE without the
  multiplication sign U+00D7; the lower-case form is 32 code units further.
\<close>

definition upperCase :: string where
  "upperCase = ''ABCDEFGHIJKLMNOPQRSTUVWXYZ'' @
     [CHR 0xC0, CHR 0xC1, CHR 0xC2, CHR 0xC3, CHR 0xC4, CHR 0xC5, CHR 0xC6, CHR 0xC7,
      CHR 0xC8, CHR 0xC9, CHR 0xCA, CHR 0xCB, CHR 0xCC, CHR 0xCD, CHR 0xCE, CHR 0xCF,
      CHR 0xD0, CHR 0xD1, CHR 0xD2, CHR 0xD3, CHR 0xD4, CHR 0xD5, CHR 0xD6, CHR 0xD8,
      CHR 0xD9, CHR 0xDA, CHR 0xDB, CHR 0xDC, CHR 0xDD, CHR 0xDE]"

definition lowerCase :: string where
  "lowerCase = ''abcdefghijklmnopqrstuvwxyz'' @
     [CHR 0xE0, CHR 0xE1, CHR 0xE2, CHR 0xE3, CHR 0xE4, CHR 0xE5, CHR 0xE6, CHR 0xE7,
      CHR 0xE8, CHR 0xE9, CHR 0xEA, CHR 0xEB, CHR 0xEC, CHR 0xED, CHR 0xEE, CHR 0xEF,
      CHR 0xF0, CHR 0xF1, CHR 0xF2, CHR 0xF3, CHR 0xF4, CHR 0xF5, CHR 0xF6, CHR 0xF8,
      CHR 0xF9, CHR 0xFA, CHR 0xFB, CHR 0xFC, CHR 0xFD, CHR 0xFE]"

definition toLowerCase_char :: "char \<Rightarrow> char" where
  "toLowerCase_char c =
     (case map_of (zip upperCase lowerCase) c of
        Some l \<Rightarrow> l
      | None \<Rightarrow> c)"

definition toLowerCase :: "string \<Rightarrow> string" where
  "toLowerCase str = map toLowerCase_char str"

text \<open>\<open>str.includes(pat)\<close>: \<open>pat\<close> occurs in \<open>str\<close> as a contiguous run.\<close>

fun includes_str :: "string \<Rightarrow> string \<Rightarrow> bool" where
  "includes_str [] pat = (pat = [])"
| "includes_str (c # cs) pat = (prefix pat (c # cs) \<or> includes_str cs pat)"

text \<open>\<open>arr.join(sep)\<close> on an array of strings.\<close>

fun join :: "string \<Rightarrow> string list \<Rightarrow> string" where
  "join sep [] = []"
| "join sep [x] = x"
| "join sep (x # y # ys) = x @ sep @ join sep (y # ys)"


section \<open>Configuration\<close>

definition TAG_NAME :: string where
  "TAG_NAME = ''api-top-seller''"

definition RATE_LIMIT_DELAY :: nat where
  "RATE_LIMIT_DELAY = 500"


section \<open>Data\<close>

text \<open>A value thrown and caught: an \<open>Error\<close> with its message.\<close>

datatype error = Error string

text \<open>
  The \<open>tags\<close> field of a catalog node is tested with \<open>Array.isArray\<close>, so the model
  keeps both cases: an array of tags, or any other value.
\<close>

datatype tags_value = TagArray "string list" | NotArray

text \<open>The node of a search edge: \<open>{ id, title, vendor, productType, tags }\<close>.\<close>

record product =
  node_id :: string
  node_title :: string
  node_vendor :: string
  node_productType :: string
  node_tags :: tags_value

text \<open>The object pushed onto \<open>products\<close> by the CSV reader.\<close>

record sourceRow =
  title :: string
  vendor :: string
  productType :: string

text \<open>
  The object pushed onto \<open>successfullyTagged\<close>:
  \<open>{ ...shopifyProduct, originalData: product }\<close>.
\<close>

record taggedProduct = product +
  originalData :: sourceRow

record userError =
  field :: "string list"
  message :: string

text \<open>One record of a report, before \<open>stringify\<close>; the columns are named as in the file.\<close>

record reportRow =
  col_gid :: string
  col_title :: string
  col_productType :: string
  col_vendor :: string

record fileWrite =
  path :: string
  records :: "reportRow list"


section \<open>The remote catalog\<close>

text \<open>
  \<open>client.request\<close> is the only way the program reaches the catalog. The catalog is
  a state of any type \<open>'s\<close> with two operations, one per GraphQL document the program
  sends. Each returns \<open>Inl\<close> when the awaited request rejects (a transport or protocol
  error) and \<open>Inr\<close> with the payload otherwise: the nodes of
  \<open>response.products.edges\<close> for a search, \<open>response.productUpdate.userErrors\<close> for an
  update.
\<close>

record 's client =
  search :: "string \<Rightarrow> 's \<Rightarrow> (error + product list) \<times> 's"
  productUpdate :: "string \<Rightarrow> string list \<Rightarrow> 's \<Rightarrow> (error + userError list) \<times> 's"

text \<open>
  What the program does to the outside, in order: the requests it sends and the
  pauses it makes.
\<close>

datatype event =
  SearchRequest string
| UpdateRequest string "string list"
| Delay nat

record 's world =
  service :: 's
  trace :: "event list"

definition request_search ::
  "'s client \<Rightarrow> string \<Rightarrow> 's world \<Rightarrow> (error + product list) \<times> 's world" where
  "request_search client searchQuery w =
     (let (response, s') = search client searchQuery (service w)
      in (response, \<lparr>service = s', trace = trace w @ [SearchRequest searchQuery]\<rparr>))"

definition request_update ::
  "'s client \<Rightarrow> string \<Rightarrow> string list \<Rightarrow> 's world \<Rightarrow> (error + userError list) \<times> 's world" where
  "request_update client ident tgs w =
     (let (response, s') = productUpdate client ident tgs (service w)
      in (response, \<lparr>service = s', trace = trace w @ [UpdateRequest ident tgs]\<rparr>))"

definition setTimeout :: "nat \<Rightarrow> 's world \<Rightarrow> 's world" where
  "setTimeout ms w = w\<lparr>trace := trace w @ [Delay ms]\<rparr>"


section \<open>findProduct\<close>

definition cleanAndEscape :: "string \<Rightarrow> string" where
  "cleanAndEscape str =
     trim (replaceAll backslash [backslash, backslash]
            (replaceAll dquote [backslash, dquote]
              (replaceAll squote [backslash, squote] str)))"

text \<open>The predicate of the \<open>filter\<close> over the edges of a non-empty response.\<close>

definition exactMatch :: "string \<Rightarrow> string \<Rightarrow> string \<Rightarrow> product \<Rightarrow> bool" where
  "exactMatch title' vendor' productType' node =
     (node_title node = title' \<and>
      trim (node_vendor node) = trim vendor' \<and>
      trim (node_productType node) = trim productType')"

text \<open>
  The result is \<open>Inr (Some node)\<close> for a returned node, \<open>Inr None\<close> for a returned
  \<open>null\<close>, and \<open>Inl\<close> for an exception leaving the function. The \<open>Inl\<close> branch of the
  response is the \<open>catch\<close> block.
\<close>

definition findProduct ::
  "'s client \<Rightarrow> string \<Rightarrow> string \<Rightarrow> string \<Rightarrow> 's world \<Rightarrow> (error + product option) \<times> 's world" where
  "findProduct client title' vendor' productType' w =
     (let cleanTitle = cleanAndEscape title';
          searchQuery = ''title:'' @ [dquote] @ cleanTitle @ [dquote];
          (response, w') = request_search client searchQuery w
      in case response of
           Inr edges \<Rightarrow>
             if length edges > 0 then
               (let matches = filter (exactMatch title' vendor' productType') edges
                in if length matches > 0 then (Inr (Some (matches ! 0)), w')
                   else (Inr None, w'))
             else (Inr None, w')
         | Inl err \<Rightarrow> (Inr None, w'))"


section \<open>updateProductTags\<close>

text \<open>
  \<open>currentTags\<close> is the node's own array when \<open>tags\<close> is an array, and a fresh empty
  array otherwise; \<open>push\<close> changes it in place. The node after the call is therefore
  part of the result, next to the returned boolean: it has the pushed tag when its
  \<open>tags\<close> was an array, and is unchanged when it was not.
\<close>

definition pushTag :: "string list \<Rightarrow> string list" where
  "pushTag currentTags =
     (if \<not> (TAG_NAME \<in> set currentTags) then currentTags @ [TAG_NAME] else currentTags)"

definition updateProductTags ::
  "'s client \<Rightarrow> product \<Rightarrow> 's world \<Rightarrow> (error + bool) \<times> product \<times> 's world" where
  "updateProductTags client node w =
     (let currentTags = (case node_tags node of TagArray ts \<Rightarrow> ts | NotArray \<Rightarrow> []);
          currentTags' = pushTag currentTags;
          node' = (case node_tags node of
                     TagArray ts \<Rightarrow> node\<lparr>node_tags := TagArray currentTags'\<rparr>
                   | NotArray \<Rightarrow> node);
          (response, w') = request_update client (node_id node) currentTags' w;
          attempt = (case response of
                       Inl err \<Rightarrow> Inl err
                     | Inr userErrors \<Rightarrow>
                         if length userErrors > 0
                         then Inl (Error (join '', '' (map message userErrors)))
                         else Inr True)
      in case attempt of
           Inr ok \<Rightarrow> (Inr ok, node', w')
         | Inl err \<Rightarrow> (Inr False, node', w'))"


section \<open>generateReports\<close>

definition gidPrefix :: string where
  "gidPrefix = ''gid://shopify/Product/''"

definition successData :: "taggedProduct list \<Rightarrow> reportRow list" where
  "successData taggedProducts =
     map (\<lambda>p. \<lparr>col_gid = replaceFirst gidPrefix [] (node_id p),
               col_title = node_title p,
               col_productType = node_productType p,
               col_vendor = node_vendor p\<rparr>) taggedProducts"

definition notFoundData :: "sourceRow list \<Rightarrow> reportRow list" where
  "notFoundData notFoundProducts =
     map (\<lambda>p. \<lparr>col_gid = [],
               col_title = title p,
               col_productType = productType p,
               col_vendor = vendor p\<rparr>) notFoundProducts"

definition successPath :: "string \<Rightarrow> string" where
  "successPath formattedTimestamp = ''intake/tagged_products_'' @ formattedTimestamp @ ''.csv''"

definition notFoundPath :: "string \<Rightarrow> string" where
  "notFoundPath formattedTimestamp =
     ''intake/not_found_products_'' @ formattedTimestamp @ ''.csv''"

text \<open>
  The files written, in order, each with its records. The time stamp of the file names
  comes from the clock and is a parameter; the paths are relative to the directory of
  the script.
\<close>

definition generateReports ::
  "string \<Rightarrow> taggedProduct list \<Rightarrow> sourceRow list \<Rightarrow> fileWrite list" where
  "generateReports formattedTimestamp taggedProducts notFoundProducts =
     (if length taggedProducts > 0
      then [\<lparr>path = successPath formattedTimestamp, records = successData taggedProducts\<rparr>]
      else []) @
     (if length notFoundProducts > 0
      then [\<lparr>path = notFoundPath formattedTimestamp, records = notFoundData notFoundProducts\<rparr>]
      else [])"


section \<open>processTopProducts\<close>

subsection \<open>Reading the rows\<close>

text \<open>
  A record delivered by the CSV parser is an object whose keys are the column headers
  and whose values are strings; it is the list of its entries in the order of
  \<open>Object.keys\<close>, and \<open>row[key]\<close> is the value of the entry with that key. The three
  values are \<open>None\<close> where the source has \<open>null\<close>.
\<close>

type_synonym row = "(string \<times> string) list"

definition findKey :: "string \<Rightarrow> row \<Rightarrow> string option" where
  "findKey word r = find (\<lambda>k. includes_str (toLowerCase k) word) (map fst r)"

definition valueAt :: "row \<Rightarrow> string option \<Rightarrow> string option" where
  "valueAt r key = (case key of Some k \<Rightarrow> map_of r k | None \<Rightarrow> None)"

text \<open>A string or \<open>null\<close> is truthy when it is a non-empty string.\<close>

definition truthy :: "string option \<Rightarrow> bool" where
  "truthy v = (case v of Some s \<Rightarrow> s \<noteq> [] | None \<Rightarrow> False)"

definition onData :: "sourceRow list \<Rightarrow> row \<Rightarrow> sourceRow list" where
  "onData products r =
     (let titleKey = findKey ''title'' r;
          vendorKey = findKey ''vendor'' r;
          typeKey = findKey ''type'' r;
          title' = valueAt r titleKey;
          vendor' = valueAt r vendorKey;
          productType' = valueAt r typeKey
      in if truthy title' \<and> truthy vendor' \<and> truthy productType'
         then (case (title', vendor', productType') of
                 (Some t, Some v, Some p) \<Rightarrow>
                   products @ [\<lparr>title = trim t, vendor = trim v, productType = trim p\<rparr>]
               | _ \<Rightarrow> products)
         else products)"

definition readCsv :: "row list \<Rightarrow> sourceRow list" where
  "readCsv rows = foldl onData [] rows"

subsection \<open>The loop over the products\<close>

record 's driver =
  world :: "'s world"
  processed :: nat
  matched :: nat
  tagged :: nat
  successfullyTagged :: "taggedProduct list"
  notFound :: "sourceRow list"

definition spread :: "product \<Rightarrow> sourceRow \<Rightarrow> taggedProduct" where
  "spread shopifyProduct p =
     \<lparr>node_id = node_id shopifyProduct,
      node_title = node_title shopifyProduct,
      node_vendor = node_vendor shopifyProduct,
      node_productType = node_productType shopifyProduct,
      node_tags = node_tags shopifyProduct,
      originalData = p\<rparr>"

text \<open>
  One iteration. The \<open>Inl\<close> branches are the \<open>catch\<close> block of the loop: the row is
  pushed onto \<open>notFound\<close> and the pause, which is the last statement of the \<open>try\<close>
  block, is not reached.
\<close>

definition loopBody :: "'s client \<Rightarrow> 's driver \<Rightarrow> sourceRow \<Rightarrow> 's driver" where
  "loopBody client st p =
     (let st1 = st\<lparr>processed := processed st + 1\<rparr>;
          (found, w1) = findProduct client (title p) (vendor p) (productType p) (world st1)
      in case found of
           Inl err \<Rightarrow> st1\<lparr>world := w1, notFound := notFound st1 @ [p]\<rparr>
         | Inr None \<Rightarrow>
             st1\<lparr>world := setTimeout RATE_LIMIT_DELAY w1, notFound := notFound st1 @ [p]\<rparr>
         | Inr (Some shopifyProduct) \<Rightarrow>
             (let st2 = st1\<lparr>matched := matched st1 + 1\<rparr>;
                  (success, shopifyProduct', w2) = updateProductTags client shopifyProduct w1
              in case success of
                   Inl err \<Rightarrow> st2\<lparr>world := w2, notFound := notFound st2 @ [p]\<rparr>
                 | Inr True \<Rightarrow>
                     st2\<lparr>world := setTimeout RATE_LIMIT_DELAY w2,
                         tagged := tagged st2 + 1,
                         successfullyTagged :=
                           successfullyTagged st2 @ [spread shopifyProduct' p]\<rparr>
                 | Inr False \<Rightarrow> st2\<lparr>world := setTimeout RATE_LIMIT_DELAY w2\<rparr>))"

definition initial :: "'s world \<Rightarrow> 's driver" where
  "initial w =
     \<lparr>world = w, processed = 0, matched = 0, tagged = 0,
      successfullyTagged = [], notFound = []\<rparr>"

definition processLoop :: "'s client \<Rightarrow> sourceRow list \<Rightarrow> 's world \<Rightarrow> 's driver" where
  "processLoop client products w = foldl (loopBody client) (initial w) products"

text \<open>
  The whole run, from the parsed records: the final state of the loop and the files
  written. With no product the function returns before the loop and the reports.
\<close>

definition processTopProducts ::
  "'s client \<Rightarrow> string \<Rightarrow> row list \<Rightarrow> 's world \<Rightarrow> 's driver \<times> fileWrite list" where
  "processTopProducts client formattedTimestamp rows w =
     (let products = readCsv rows
      in if length products = 0 then (initial w, [])
         else (let st = processLoop client products w
               in (st, generateReports formattedTimestamp (successfullyTagged st) (notFound st))))"

section \<open>The escaping as the specification words it\<close>

text \<open>
  The specification orders the three replacements differently from \<open>cleanAndEscape\<close>:
  backslash first, then single quote, then double quote, then the trim. This second
  definition follows the specification, to be compared with the one from the source.
\<close>

definition escape_spec :: "string \<Rightarrow> string" where
  "escape_spec str =
     trim (replaceAll dquote [backslash, dquote]
            (replaceAll squote [backslash, squote]
              (replaceAll backslash [backslash, backslash] str)))"

text \<open>
  Reading the inside of a quoted query term back: a backslash stands for the character
  that follows it.
\<close>

fun unescape :: "string \<Rightarrow> string" where
  "unescape [] = []"
| "unescape [c] = (if c = backslash then [] else [c])"
| "unescape (c # d # ds) =
     (if c = backslash then d # unescape ds else c # unescape (d # ds))"

text \<open>What \<open>escape_spec\<close> does to one character.\<close>

definition escChar :: "char \<Rightarrow> string" where
  "escChar c = (if c = backslash \<or> c = squote \<or> c = dquote then [backslash, c] else [c])"


section \<open>Auxiliary notions for the statements\<close>

text \<open>The query string that \<open>findProduct\<close> sends for a title.\<close>

definition queryFor :: "string \<Rightarrow> string" where
  "queryFor t = ''title:'' @ [dquote] @ cleanAndEscape t @ [dquote]"

text \<open>The array that \<open>updateProductTags\<close> starts from.\<close>

definition tagsOf :: "product \<Rightarrow> string list" where
  "tagsOf node = (case node_tags node of TagArray ts \<Rightarrow> ts | NotArray \<Rightarrow> [])"

definition isDelay :: "event \<Rightarrow> bool" where
  "isDelay e = (case e of Delay ms \<Rightarrow> True | _ \<Rightarrow> False)"

definition delays :: "event list \<Rightarrow> nat" where
  "delays evs = length (filter isDelay evs)"

text \<open>How the counters and the two ledgers of the loop relate.\<close>

definition accounted :: "'s driver \<Rightarrow> bool" where
  "accounted st =
     (tagged st \<le> matched st \<and>
      length (successfullyTagged st) = tagged st \<and>
      length (notFound st) + matched st = processed st)"

text \<open>The source rows that are in one of the two ledgers.\<close>

definition ledgerRows :: "'s driver \<Rightarrow> sourceRow set" where
  "ledgerRows st = set (notFound st) \<union> originalData ` set (successfullyTagged st)"


section \<open>Example values\<close>

text \<open>
  A catalog without state that answers from two tables: a search by its query string,
  an update by the identifier of the node. A request that is in neither table is
  answered with no edge and with no user error.
\<close>

definition tableClient ::
  "(string \<times> (error + product list)) list \<Rightarrow>
   (string \<times> (error + userError list)) list \<Rightarrow> unit client" where
  "tableClient searches updates =
     \<lparr>search = (\<lambda>q s. (case map_of searches q of Some r \<Rightarrow> r | None \<Rightarrow> Inr [], s)),
      productUpdate =
        (\<lambda>i tgs s. (case map_of updates i of Some r \<Rightarrow> r | None \<Rightarrow> Inr [], s))\<rparr>"

definition emptyWorld :: "unit world" where
  "emptyWorld = \<lparr>service = (), trace = []\<rparr>"

definition widget :: "string \<Rightarrow> sourceRow" where
  "widget name = \<lparr>title = ''Widget '' @ name, vendor = ''Acme Co'', productType = ''Gadgets''\<rparr>"

definition widgetRecord :: "string \<Rightarrow> row" where
  "widgetRecord name =
     [(''Product title'', ''Widget '' @ name),
      (''Product vendor'', ''Acme Co''),
      (''Product type'', ''Gadgets'')]"

definition widgetNode :: "string \<Rightarrow> string \<Rightarrow> string \<Rightarrow> string list \<Rightarrow> product" where
  "widgetNode num name vend tgs =
     \<lparr>node_id = ''gid://shopify/Product/'' @ num, node_title = ''Widget '' @ name,
      node_vendor = vend, node_productType = ''Gadgets'', node_tags = TagArray tgs\<rparr>"

definition widgetQuery :: "string \<Rightarrow> string" where
  "widgetQuery name = ''title:'' @ [dquote] @ ''Widget '' @ name @ [dquote]"

text \<open>
  Widget A is in the catalog and its update is accepted; Widget B is there under
  another vendor; Widget C is there and its update is answered with a user error; the
  search for Widget D fails in transport.
\<close>

definition demoClient :: "unit client" where
  "demoClient = tableClient
     [(widgetQuery ''A'', Inr [widgetNode ''1'' ''A'' ''Acme Co'' [''sale'']]),
      (widgetQuery ''B'', Inr [widgetNode ''2'' ''B'' ''Other Co'' [''sale'']]),
      (widgetQuery ''C'', Inr [widgetNode ''3'' ''C'' ''Acme Co'' [''sale'']]),
      (widgetQuery ''D'', Inl (Error ''socket hang up''))]
     [(''gid://shopify/Product/3'', Inr [\<lparr>field = [''tags''], message = ''Tags is invalid''\<rparr>])]"

text \<open>The four records of the example file, and the rows read from them.\<close>

definition demoRecords :: "row list" where
  "demoRecords = map widgetRecord [''A'', ''B'', ''C'', ''D'']"

definition demoRows :: "sourceRow list" where
  "demoRows = map widget [''A'', ''B'', ''C'', ''D'']"

text \<open>A catalog whose every update fails in transport.\<close>

definition offlineClient :: "unit client" where
  "offlineClient = tableClient []
     [(''gid://shopify/Product/1'', Inl (Error ''socket hang up''))]"

definition redMug :: "string \<Rightarrow> product" where
  "redMug ptype =
     \<lparr>node_id = ''gid://shopify/Product/7'', node_title = ''Red Mug'',
      node_vendor = ''Acme'', node_productType = ptype, node_tags = TagArray []\<rparr>"

definition redMugQuery :: string where
  "redMugQuery = ''title:'' @ [dquote] @ ''Red Mug'' @ [dquote]"

text \<open>A record whose title cell is one space, as a quoted cell of the file gives it.\<close>

definition blankTitleRecord :: row where
  "blankTitleRecord = [(''Title'', '' ''), (''Vendor'', ''Acme''), (''Type'', ''Mug'')]"

text \<open>A record with one header that contains both \<open>title\<close> and \<open>type\<close>.\<close>

definition twoKeywordRecord :: row where
  "twoKeywordRecord = [(''Title Type'', ''Mug''), (''Vendor'', ''Acme'')]"

definition noVendorRecord :: row where
  "noVendorRecord = [(''Title'', ''Red Mug''), (''Type'', ''Mug'')]"

definition obrien :: string where
  "obrien = ''O'' @ [squote] @ ''Brien''"

lemmas string_defs = trim_def isWhiteSpace_def replaceAll_def toLowerCase_def
  toLowerCase_char_def upperCase_def lowerCase_def backslash_def squote_def dquote_def

lemmas reader_defs = readCsv_def onData_def findKey_def valueAt_def truthy_def

lemmas matcher_defs = findProduct_def cleanAndEscape_def request_search_def exactMatch_def

lemmas updater_defs = updateProductTags_def request_update_def pushTag_def TAG_NAME_def

lemmas driver_defs = processTopProducts_def processLoop_def initial_def loopBody_def
  setTimeout_def RATE_LIMIT_DELAY_def spread_def

lemmas report_defs = generateReports_def successData_def notFoundData_def successPath_def
  notFoundPath_def gidPrefix_def

lemmas example_defs = tableClient_def demoClient_def offlineClient_def emptyWorld_def
  widget_def widgetRecord_def widgetNode_def widgetQuery_def redMug_def redMugQuery_def
  blankTitleRecord_def twoKeywordRecord_def noVendorRecord_def obrien_def
  demoRecords_def demoRows_def

section \<open>Facts about the string operations\<close>

lemma chars_distinct: "backslash \<noteq> squote" "backslash \<noteq> dquote" "squote \<noteq> dquote"
  by (simp_all add: backslash_def squote_def dquote_def)

lemma ws_not_special:
  "isWhiteSpace c \<Longrightarrow> c \<noteq> backslash \<and> c \<noteq> squote \<and> c \<noteq> dquote"
  by (auto simp: isWhiteSpace_def backslash_def squote_def dquote_def)

lemma backslash_not_ws: "\<not> isWhiteSpace backslash"
  by (simp add: isWhiteSpace_def backslash_def)

text \<open>The no-break space is trimmed like the space.\<close>

lemma trim_no_break_space:
  "trim [CHR 0xA0] = []"
  "trim ([CHR 0xA0] @ ''Acme'' @ [CHR 0xA0, CHR 0x20]) = ''Acme''"
  by (simp_all add: trim_def isWhiteSpace_def)

text \<open>\<open>includes_str\<close> is the substring test.\<close>

lemma includes_str_iff: "includes_str s pat \<longleftrightarrow> (\<exists>a b. s = a @ pat @ b)"
proof (induction s)
  case Nil
  then show ?case by auto
next
  case (Cons c cs)
  show ?case
  proof
    assume "includes_str (c # cs) pat"
    then consider "prefix pat (c # cs)" | "includes_str cs pat" by auto
    then show "\<exists>a b. c # cs = a @ pat @ b"
    proof cases
      case 1
      then obtain b where "c # cs = pat @ b" by (auto simp: prefix_def)
      then have "c # cs = [] @ pat @ b" by simp
      then show ?thesis by blast
    next
      case 2
      with Cons obtain a b where "cs = a @ pat @ b" by blast
      then have "c # cs = (c # a) @ pat @ b" by simp
      then show ?thesis by blast
    qed
  next
    assume "\<exists>a b. c # cs = a @ pat @ b"
    then obtain a b where ab: "c # cs = a @ pat @ b" by blast
    show "includes_str (c # cs) pat"
    proof (cases a)
      case Nil
      with ab have "prefix pat (c # cs)" by (simp add: prefix_def)
      then show ?thesis by simp
    next
      case (Cons x xs)
      with ab have "cs = xs @ pat @ b" by simp
      with Cons.IH show ?thesis by auto
    qed
  qed
qed

text \<open>Removing a pattern that is at the front leaves the rest.\<close>

lemma replaceFirst_prefix: "replaceFirst pat [] (pat @ rest) = rest"
proof (cases "pat @ rest")
  case Nil
  then show ?thesis by simp
next
  case (Cons a list)
  have p: "prefix pat (a # list)" unfolding Cons[symmetric] by simp
  have "drop (length pat) (a # list) = rest" unfolding Cons[symmetric] by simp
  with p show ?thesis unfolding Cons by simp
qed

lemma replaceFirst_absent: "\<not> includes_str s pat \<Longrightarrow> replaceFirst pat rep s = s"
  by (induction s) auto


section \<open>The escaping of the title\<close>

text \<open>
  In the order of the specification the three replacements put one backslash before
  each backslash and each quote, and reading the result back gives the trimmed title.
\<close>

lemma replace_spec_concat:
  "replaceAll dquote [backslash, dquote]
     (replaceAll squote [backslash, squote]
        (replaceAll backslash [backslash, backslash] str)) = concat (map escChar str)"
  using chars_distinct
  by (induction str) (auto simp: replaceAll_def escChar_def)

lemma unescape_escChar: "unescape (escChar c @ rest) = c # unescape rest"
  by (cases rest) (auto simp: escChar_def)

lemma unescape_concat: "unescape (concat (map escChar str)) = str"
  by (induction str) (simp_all add: unescape_escChar)

lemma dropWhile_esc:
  "dropWhile isWhiteSpace (concat (map escChar str)) =
   concat (map escChar (dropWhile isWhiteSpace str))"
proof (induction str)
  case Nil
  then show ?case by simp
next
  case (Cons c cs)
  show ?case
  proof (cases "isWhiteSpace c")
    case True
    with ws_not_special[OF True] Cons show ?thesis by (simp add: escChar_def)
  next
    case False
    with backslash_not_ws show ?thesis by (simp add: escChar_def)
  qed
qed

lemma dropWhile_rev_esc:
  "dropWhile isWhiteSpace (rev (concat (map escChar str))) =
   rev (concat (map escChar (rev (dropWhile isWhiteSpace (rev str)))))"
proof (induction str rule: rev_induct)
  case Nil
  then show ?case by simp
next
  case (snoc c cs)
  show ?case
  proof (cases "isWhiteSpace c")
    case True
    with ws_not_special[OF True] snoc show ?thesis by (simp add: escChar_def)
  next
    case False
    then show ?thesis by (simp add: escChar_def)
  qed
qed

lemma trim_esc: "trim (concat (map escChar str)) = concat (map escChar (trim str))"
  by (simp add: trim_def dropWhile_esc dropWhile_rev_esc)

lemma escape_spec_roundtrip: "unescape (escape_spec str) = trim str"
  by (simp add: escape_spec_def replace_spec_concat trim_esc unescape_concat)

text \<open>
  \<open>cleanAndEscape\<close> replaces the backslash last. On a title without a quote it agrees
  with the order of the specification.
\<close>

lemma replaceAll_absent: "c \<notin> set str \<Longrightarrow> replaceAll c rep str = str"
  by (induction str) (auto simp: replaceAll_def)

lemma set_replaceAll_backslash:
  "c \<noteq> backslash \<Longrightarrow> c \<in> set (replaceAll backslash [backslash, backslash] str) \<longleftrightarrow> c \<in> set str"
  by (induction str) (auto simp: replaceAll_def)

lemma cleanAndEscape_without_quotes:
  assumes "squote \<notin> set str" and "dquote \<notin> set str"
  shows "cleanAndEscape str = escape_spec str"
proof -
  let ?b = "replaceAll backslash [backslash, backslash] str"
  from assms chars_distinct have "squote \<notin> set ?b" and "dquote \<notin> set ?b"
    by (simp_all add: set_replaceAll_backslash)
  with assms show ?thesis
    by (simp add: cleanAndEscape_def escape_spec_def replaceAll_absent)
qed

text \<open>
  Claim C2: the sanitization of the title escapes the backslash first, then the single
  quote, then the double quote, and trims, so that an inserted backslash is never
  escaped again and reading the quoted query term back gives the original characters.
  \<open>cleanAndEscape\<close> escapes the backslash last: for the title \<open>O'Brien\<close> the
  backslash put before the quote is doubled, and reading the result back gives a
  backslash that the title does not have. The order of the specification gives one
  backslash and reads back to the title.
\<close>

theorem cleanAndEscape_escapes_twice:
  "cleanAndEscape obrien = ''O'' @ [backslash, backslash, squote] @ ''Brien''
   \<and> unescape (cleanAndEscape obrien) = ''O'' @ [backslash, squote] @ ''Brien''
   \<and> unescape (cleanAndEscape obrien) \<noteq> obrien
   \<and> escape_spec obrien = ''O'' @ [backslash, squote] @ ''Brien''
   \<and> unescape (escape_spec obrien) = obrien"
  by (simp add: cleanAndEscape_def escape_spec_def obrien_def string_defs)


section \<open>The matcher\<close>

lemma hd_filter_find: "filter P xs \<noteq> [] \<Longrightarrow> Some (filter P xs ! 0) = find P xs"
  by (induction xs) auto

lemma none_filter_find: "filter P xs = [] \<Longrightarrow> find P xs = None"
  by (induction xs) (auto split: if_splits)

text \<open>
  \<open>findProduct\<close> in one equation: the first edge that passes the filter when the
  request returns, \<open>null\<close> when it throws.
\<close>

lemma findProduct_response:
  "findProduct client t v p w =
     (case fst (request_search client (queryFor t) w) of
        Inr edges \<Rightarrow> Inr (find (exactMatch t v p) edges)
      | Inl err \<Rightarrow> Inr None,
      snd (request_search client (queryFor t) w))"
  by (simp add: findProduct_def queryFor_def Let_def hd_filter_find none_filter_find
      split: prod.splits sum.splits)

lemma fst_request_search:
  "fst (request_search client q w) = fst (search client q (service w))"
  by (simp add: request_search_def split: prod.splits)

lemma request_search_trace:
  "trace (snd (request_search client q w)) = trace w @ [SearchRequest q]"
  by (simp add: request_search_def split: prod.splits)

lemma findProduct_fst_cases:
  obtains "fst (findProduct client t v p w) = Inr None"
  | node where "fst (findProduct client t v p w) = Inr (Some node)"
  by (cases "fst (request_search client (queryFor t) w)";
      cases "fst (findProduct client t v p w)")
     (auto simp: findProduct_response)

lemma findProduct_trace:
  "findProduct client t v p w = (r, w1) \<Longrightarrow> trace w1 = trace w @ [SearchRequest (queryFor t)]"
  by (auto simp: findProduct_response request_search_trace)

text \<open>An edge whose vendor ends in a no-break space passes the filter.\<close>

lemma exactMatch_no_break_space:
  "exactMatch ''Red Mug'' ''Acme'' ''Mug''
     \<lparr>node_id = ''gid://shopify/Product/7'', node_title = ''Red Mug'',
      node_vendor = ''Acme'' @ [CHR 0xA0], node_productType = ''Mug'',
      node_tags = TagArray []\<rparr>"
  by (simp add: exactMatch_def trim_def isWhiteSpace_def)

text \<open>
  Claim C3: the exact filter of the matcher is a conjunction over three fields. For a
  search response with edges \<open>edges\<close>, the matcher returns the first edge whose title
  equals the given title, whose trimmed vendor equals the trimmed given vendor and whose
  trimmed product type equals the trimmed given product type. So a returned node is one
  of the edges and agrees with the row on the three fields, and when no edge passes the
  three tests the result is \<open>null\<close>, also for a non-empty response.
\<close>

theorem findProduct_exact_filter:
  assumes "fst (search client (queryFor t) (service w)) = Inr edges"
  shows "fst (findProduct client t v p w) =
           Inr (find (\<lambda>node. node_title node = t \<and> trim (node_vendor node) = trim v \<and>
                            trim (node_productType node) = trim p) edges)
         \<and> (\<forall>node. fst (findProduct client t v p w) = Inr (Some node) \<longrightarrow>
               node \<in> set edges \<and> node_title node = t \<and>
               trim (node_vendor node) = trim v \<and>
               trim (node_productType node) = trim p)
         \<and> ((\<forall>node \<in> set edges. \<not> (node_title node = t \<and>
               trim (node_vendor node) = trim v \<and>
               trim (node_productType node) = trim p)) \<longrightarrow>
             fst (findProduct client t v p w) = Inr None)"
proof -
  let ?P = "\<lambda>node. node_title node = t \<and> trim (node_vendor node) = trim v \<and>
                            trim (node_productType node) = trim p"
  have P: "exactMatch t v p = ?P" by (rule ext) (simp add: exactMatch_def)
  have r: "fst (findProduct client t v p w) = Inr (find ?P edges)"
    using assms by (simp add: findProduct_response fst_request_search P)
  have some: "find ?P edges = Some node \<Longrightarrow> node \<in> set edges \<and> ?P node" for node
    unfolding find_Some_iff by (metis nth_mem)
  have none: "\<forall>node \<in> set edges. \<not> ?P node \<Longrightarrow> find ?P edges = None"
    unfolding find_None_iff by blast
  show ?thesis
  proof (intro conjI allI impI)
    show "fst (findProduct client t v p w) = Inr (find ?P edges)" by (rule r)
  next
    fix node assume "fst (findProduct client t v p w) = Inr (Some node)"
    with r have f: "find ?P edges = Some node" by simp
    from some[OF f] show "node \<in> set edges" "node_title node = t"
      "trim (node_vendor node) = trim v" "trim (node_productType node) = trim p"
      by simp_all
  next
    assume "\<forall>node \<in> set edges. \<not> ?P node"
    from none[OF this] r show "fst (findProduct client t v p w) = Inr None" by simp
  qed
qed

theorem findProduct_exact_filter_witness:
  "fst (search (tableClient [(redMugQuery, Inr [redMug ''Cup'', redMug ''Mug '']) ] [])
         (queryFor ''Red Mug'') (service emptyWorld)) = Inr [redMug ''Cup'', redMug ''Mug '']
   \<and> fst (findProduct (tableClient [(redMugQuery, Inr [redMug ''Cup'', redMug ''Mug '']) ] [])
           ''Red Mug'' ''Acme'' ''Mug'' emptyWorld) = Inr (Some (redMug ''Mug ''))
   \<and> fst (search (tableClient [(redMugQuery, Inr [redMug ''Cup'']) ] [])
         (queryFor ''Red Mug'') (service emptyWorld)) = Inr [redMug ''Cup'']
   \<and> fst (findProduct (tableClient [(redMugQuery, Inr [redMug ''Cup'']) ] [])
           ''Red Mug'' ''Acme'' ''Mug'' emptyWorld) = Inr None"
proof -
  let ?c2 = "tableClient [(redMugQuery, Inr [redMug ''Cup'', redMug ''Mug '']) ] []"
  let ?c1 = "tableClient [(redMugQuery, Inr [redMug ''Cup'']) ] []"
  have q: "queryFor ''Red Mug'' = redMugQuery"
    by (simp add: queryFor_def redMugQuery_def cleanAndEscape_def string_defs)
  have h2: "fst (search ?c2 (queryFor ''Red Mug'') (service emptyWorld)) =
              Inr [redMug ''Cup'', redMug ''Mug '']"
    by (simp add: q tableClient_def)
  have h1: "fst (search ?c1 (queryFor ''Red Mug'') (service emptyWorld)) = Inr [redMug ''Cup'']"
    by (simp add: q tableClient_def)
  have "fst (findProduct ?c2 ''Red Mug'' ''Acme'' ''Mug'' emptyWorld) =
          Inr (find (\<lambda>node. node_title node = ''Red Mug'' \<and>
                 trim (node_vendor node) = trim ''Acme'' \<and>
                 trim (node_productType node) = trim ''Mug'') [redMug ''Cup'', redMug ''Mug ''])"
    using findProduct_exact_filter[OF h2, of "''Acme''" "''Mug''"] by blast
  then have a: "fst (findProduct ?c2 ''Red Mug'' ''Acme'' ''Mug'' emptyWorld) =
                  Inr (Some (redMug ''Mug ''))"
    by (simp add: redMug_def string_defs)
  have "\<forall>node \<in> set [redMug ''Cup'']. \<not> (node_title node = ''Red Mug'' \<and>
               trim (node_vendor node) = trim ''Acme'' \<and>
               trim (node_productType node) = trim ''Mug'')"
    by (simp add: redMug_def string_defs)
  with findProduct_exact_filter[OF h1, of "''Acme''" "''Mug''"]
  have b: "fst (findProduct ?c1 ''Red Mug'' ''Acme'' ''Mug'' emptyWorld) = Inr None"
    by blast
  from h2 a h1 b show ?thesis by blast
qed


section \<open>The loop body, case by case\<close>

lemma request_update_fst:
  "fst (request_update client i tgs w) = fst (productUpdate client i tgs (service w))"
  by (simp add: request_update_def split: prod.splits)

lemma request_update_trace:
  "trace (snd (request_update client i tgs w)) = trace w @ [UpdateRequest i tgs]"
  by (simp add: request_update_def split: prod.splits)

text \<open>
  \<open>updateProductTags\<close> in one equation: it returns \<open>true\<close> exactly when the request
  returns with no user error, and never throws.
\<close>

lemma updateProductTags_unfold:
  "updateProductTags client node w =
     (let tgs = pushTag (tagsOf node);
          r = request_update client (node_id node) tgs w
      in (Inr (fst r = Inr []),
          (case node_tags node of
             TagArray ts \<Rightarrow> node\<lparr>node_tags := TagArray tgs\<rparr>
           | NotArray \<Rightarrow> node),
          snd r))"
  by (simp add: updateProductTags_def tagsOf_def Let_def
      split: prod.splits sum.splits tags_value.splits)

lemma updateProductTags_fst:
  "fst (updateProductTags client node w) = Inr True \<or>
   fst (updateProductTags client node w) = Inr False"
  by (simp add: updateProductTags_unfold Let_def)

lemma updateProductTags_trace:
  "updateProductTags client node w = (r, node', w2) \<Longrightarrow>
     trace w2 = trace w @ [UpdateRequest (node_id node) (pushTag (tagsOf node))]"
  by (auto simp: updateProductTags_unfold Let_def request_update_trace)

lemma pushTag_contains: "TAG_NAME \<in> set (pushTag ts)"
  by (simp add: pushTag_def)

lemma pushTag_idem: "pushTag (pushTag ts) = pushTag ts"
  by (simp add: pushTag_def)

text \<open>
  An iteration ends in one of three ways. The \<open>catch\<close> block of the loop is in none
  of them: neither \<open>findProduct\<close> nor \<open>updateProductTags\<close> lets an exception out.
\<close>

lemma loopBody_cases [case_names NotFound Tagged TagFailed]:
  obtains
    (NotFound) w1 where
      "findProduct client (title p) (vendor p) (productType p) (world st) = (Inr None, w1)"
      "loopBody client st p =
         st\<lparr>processed := processed st + 1,
            world := setTimeout RATE_LIMIT_DELAY w1,
            notFound := notFound st @ [p]\<rparr>"
  | (Tagged) node w1 node' w2 where
      "findProduct client (title p) (vendor p) (productType p) (world st) =
         (Inr (Some node), w1)"
      "updateProductTags client node w1 = (Inr True, node', w2)"
      "loopBody client st p =
         st\<lparr>processed := processed st + 1,
            matched := matched st + 1,
            world := setTimeout RATE_LIMIT_DELAY w2,
            tagged := tagged st + 1,
            successfullyTagged := successfullyTagged st @ [spread node' p]\<rparr>"
  | (TagFailed) node w1 node' w2 where
      "findProduct client (title p) (vendor p) (productType p) (world st) =
         (Inr (Some node), w1)"
      "updateProductTags client node w1 = (Inr False, node', w2)"
      "loopBody client st p =
         st\<lparr>processed := processed st + 1,
            matched := matched st + 1,
            world := setTimeout RATE_LIMIT_DELAY w2\<rparr>"
proof -
  obtain found w1 where
    f: "findProduct client (title p) (vendor p) (productType p) (world st) = (found, w1)"
    by (cases "findProduct client (title p) (vendor p) (productType p) (world st)")
  from f have "fst (findProduct client (title p) (vendor p) (productType p) (world st)) = found"
    by simp
  then consider "found = Inr None" | node where "found = Inr (Some node)"
    by (cases rule: findProduct_fst_cases[of client "title p" "vendor p" "productType p" "world st"])
       auto
  then show thesis
  proof cases
    case 1
    with f NotFound show thesis by (simp add: loopBody_def Let_def)
  next
    case (2 node)
    obtain success node' w2 where u: "updateProductTags client node w1 = (success, node', w2)"
      by (cases "updateProductTags client node w1")
    with updateProductTags_fst[of client node w1]
    consider "success = Inr True" | "success = Inr False" by auto
    then show thesis
    proof cases
      case 1
      with 2 f u Tagged show thesis by (simp add: loopBody_def Let_def)
    next
      case 2
      with \<open>found = Inr (Some node)\<close> f u TagFailed show thesis
        by (simp add: loopBody_def Let_def)
    qed
  qed
qed

text \<open>
  Claim C5: a transport or protocol error of the search request is caught inside the
  matcher, and the row is not found; the matcher never lets an exception out to the
  loop. For every catalog and every triple the result of \<open>findProduct\<close> is a returned
  value; when the search request throws it is \<open>null\<close>, and the iteration for such a row
  pushes the row onto \<open>notFound\<close> and nothing onto \<open>successfullyTagged\<close>.
\<close>

theorem findProduct_never_raises:
  "(\<exists>r. fst (findProduct client t v p w) = Inr r)
   \<and> (\<forall>e. fst (search client (queryFor t) (service w)) = Inl e \<longrightarrow>
          fst (findProduct client t v p w) = Inr None)
   \<and> (\<forall>e. fst (search client (queryFor (title row)) (service (world st))) = Inl e \<longrightarrow>
          notFound (loopBody client st row) = notFound st @ [row] \<and>
          successfullyTagged (loopBody client st row) = successfullyTagged st)"
proof (intro conjI allI impI)
  show "\<exists>r. fst (findProduct client t v p w) = Inr r"
    by (simp add: findProduct_response split: sum.splits)
next
  fix e assume "fst (search client (queryFor t) (service w)) = Inl e"
  then show "fst (findProduct client t v p w) = Inr None"
    by (simp add: findProduct_response fst_request_search)
next
  fix e assume e: "fst (search client (queryFor (title row)) (service (world st))) = Inl e"
  then have n: "fst (findProduct client (title row) (vendor row) (productType row) (world st)) =
                  Inr None"
    by (simp add: findProduct_response fst_request_search)
  show "notFound (loopBody client st row) = notFound st @ [row]"
    using n by (cases rule: loopBody_cases[of client row st]) simp_all
  show "successfullyTagged (loopBody client st row) = successfullyTagged st"
    using n by (cases rule: loopBody_cases[of client row st]) simp_all
qed

theorem findProduct_never_raises_witness:
  "fst (search demoClient (queryFor (title (widget ''D''))) (service (world (initial emptyWorld)))) =
     Inl (Error ''socket hang up'')
   \<and> fst (findProduct demoClient ''Widget D'' ''Acme Co'' ''Gadgets'' emptyWorld) = Inr None
   \<and> notFound (loopBody demoClient (initial emptyWorld) (widget ''D'')) = [widget ''D'']
   \<and> successfullyTagged (loopBody demoClient (initial emptyWorld) (widget ''D'')) = []"
proof -
  have q: "queryFor (title (widget ''D'')) = widgetQuery ''D''"
    by (simp add: queryFor_def widgetQuery_def widget_def cleanAndEscape_def string_defs)
  have t: "title (widget ''D'') = ''Widget D''" by (simp add: widget_def)
  have w: "world (initial emptyWorld) = emptyWorld" by (simp add: initial_def)
  have h: "fst (search demoClient (queryFor (title (widget ''D'')))
             (service (world (initial emptyWorld)))) = Inl (Error ''socket hang up'')"
    by (simp add: q demoClient_def tableClient_def widgetQuery_def dquote_def)
  have h': "fst (search demoClient (queryFor ''Widget D'') (service emptyWorld)) =
              Inl (Error ''socket hang up'')"
    using h by (simp add: t w)
  from findProduct_never_raises[of demoClient "''Widget D''" "''Acme Co''" "''Gadgets''" emptyWorld
      "widget ''D''" "initial emptyWorld"] h h'
  have "fst (findProduct demoClient ''Widget D'' ''Acme Co'' ''Gadgets'' emptyWorld) = Inr None"
    and "notFound (loopBody demoClient (initial emptyWorld) (widget ''D'')) =
           notFound (initial emptyWorld) @ [widget ''D'']"
    and "successfullyTagged (loopBody demoClient (initial emptyWorld) (widget ''D'')) =
           successfullyTagged (initial emptyWorld)"
    by blast+
  with h show ?thesis by (simp add: initial_def)
qed


section \<open>The tag updater\<close>

text \<open>
  Claim C4: the tag update is idempotent. When the tag is already in the array of the
  entry the array is left as it is, otherwise the tag is appended once; a second call
  on the same entry leaves the entry as the first call left it and sends the same tag
  set, and each of the two calls returns \<open>true\<close> when the catalog answers its request
  with no user error. The tag is the constant \<open>TAG_NAME\<close> of the program.
\<close>

theorem updateProductTags_idempotent:
  assumes one: "updateProductTags client node w = (r1, node1, w1)"
      and two: "updateProductTags client node1 w1 = (r2, node2, w2)"
  shows "(\<forall>ts. node_tags node = TagArray ts \<longrightarrow>
            node_tags node1 = TagArray (if TAG_NAME \<in> set ts then ts else ts @ [TAG_NAME]))
         \<and> node2 = node1
         \<and> (\<exists>tgs. trace w1 = trace w @ [UpdateRequest (node_id node) tgs]
                \<and> trace w2 = trace w1 @ [UpdateRequest (node_id node) tgs]
                \<and> (fst (productUpdate client (node_id node) tgs (service w)) = Inr [] \<longrightarrow>
                     r1 = Inr True)
                \<and> (fst (productUpdate client (node_id node) tgs (service w1)) = Inr [] \<longrightarrow>
                     r2 = Inr True))"
proof -
  let ?tgs = "pushTag (tagsOf node)"
  from one have r1: "r1 = Inr (fst (request_update client (node_id node) ?tgs w) = Inr [])"
    and n1: "node1 = (case node_tags node of
                        TagArray ts \<Rightarrow> node\<lparr>node_tags := TagArray ?tgs\<rparr>
                      | NotArray \<Rightarrow> node)"
    and w1: "w1 = snd (request_update client (node_id node) ?tgs w)"
    by (simp_all add: updateProductTags_unfold Let_def)
  have id1: "node_id node1 = node_id node"
    by (simp add: n1 split: tags_value.splits)
  have tg1: "pushTag (tagsOf node1) = ?tgs"
    by (simp add: n1 tagsOf_def pushTag_idem split: tags_value.splits)
  from two have r2: "r2 = Inr (fst (request_update client (node_id node) ?tgs w1) = Inr [])"
    and n2: "node2 = (case node_tags node1 of
                        TagArray ts \<Rightarrow> node1\<lparr>node_tags := TagArray ?tgs\<rparr>
                      | NotArray \<Rightarrow> node1)"
    and w2: "w2 = snd (request_update client (node_id node) ?tgs w1)"
    by (simp_all add: updateProductTags_unfold Let_def id1 tg1)
  have a: "\<forall>ts. node_tags node = TagArray ts \<longrightarrow>
            node_tags node1 = TagArray (if TAG_NAME \<in> set ts then ts else ts @ [TAG_NAME])"
    by (simp add: n1 tagsOf_def pushTag_def)
  have b: "node2 = node1"
    by (simp add: n2 n1 split: tags_value.splits)
  have c: "trace w1 = trace w @ [UpdateRequest (node_id node) ?tgs]"
    by (simp add: w1 request_update_trace)
  have d: "trace w2 = trace w1 @ [UpdateRequest (node_id node) ?tgs]"
    by (simp add: w2 request_update_trace)
  have e: "fst (productUpdate client (node_id node) ?tgs (service w)) = Inr [] \<longrightarrow>
             r1 = Inr True"
    by (simp add: r1 request_update_fst)
  have f: "fst (productUpdate client (node_id node) ?tgs (service w1)) = Inr [] \<longrightarrow>
             r2 = Inr True"
    by (simp add: r2 request_update_fst)
  from a b c d e f show ?thesis by blast
qed

theorem updateProductTags_idempotent_witness:
  "updateProductTags demoClient (widgetNode ''1'' ''A'' ''Acme Co'' [''sale'']) emptyWorld =
     (Inr True, widgetNode ''1'' ''A'' ''Acme Co'' [''sale'', TAG_NAME],
      \<lparr>service = (), trace = [UpdateRequest ''gid://shopify/Product/1'' [''sale'', TAG_NAME]]\<rparr>)
   \<and> updateProductTags demoClient (widgetNode ''1'' ''A'' ''Acme Co'' [''sale'', TAG_NAME])
        \<lparr>service = (), trace = [UpdateRequest ''gid://shopify/Product/1'' [''sale'', TAG_NAME]]\<rparr> =
     (Inr True, widgetNode ''1'' ''A'' ''Acme Co'' [''sale'', TAG_NAME],
      \<lparr>service = (), trace = [UpdateRequest ''gid://shopify/Product/1'' [''sale'', TAG_NAME],
                              UpdateRequest ''gid://shopify/Product/1'' [''sale'', TAG_NAME]]\<rparr>)
   \<and> node_tags (widgetNode ''1'' ''A'' ''Acme Co'' [''sale'', TAG_NAME]) =
       TagArray (if TAG_NAME \<in> set [''sale''] then [''sale''] else [''sale''] @ [TAG_NAME])"
proof -
  let ?w1 = "\<lparr>service = (), trace = [UpdateRequest ''gid://shopify/Product/1'' [''sale'', TAG_NAME]]\<rparr>"
  let ?w2 = "\<lparr>service = (), trace = [UpdateRequest ''gid://shopify/Product/1'' [''sale'', TAG_NAME],
                              UpdateRequest ''gid://shopify/Product/1'' [''sale'', TAG_NAME]]\<rparr>"
  have h1: "updateProductTags demoClient (widgetNode ''1'' ''A'' ''Acme Co'' [''sale'']) emptyWorld =
     (Inr True, widgetNode ''1'' ''A'' ''Acme Co'' [''sale'', TAG_NAME], ?w1)"
    by (simp add: updater_defs example_defs Let_def)
  have h2: "updateProductTags demoClient (widgetNode ''1'' ''A'' ''Acme Co'' [''sale'', TAG_NAME]) ?w1 =
     (Inr True, widgetNode ''1'' ''A'' ''Acme Co'' [''sale'', TAG_NAME], ?w2)"
    by (simp add: updater_defs example_defs Let_def)
  have t: "node_tags (widgetNode ''1'' ''A'' ''Acme Co'' [''sale'']) = TagArray [''sale'']"
    by (simp add: widgetNode_def)
  from updateProductTags_idempotent[OF h1 h2] t
  have "node_tags (widgetNode ''1'' ''A'' ''Acme Co'' [''sale'', TAG_NAME]) =
       TagArray (if TAG_NAME \<in> set [''sale''] then [''sale''] else [''sale''] @ [TAG_NAME])"
    by blast
  with h1 h2 show ?thesis by blast
qed

text \<open>
  Claim C9: the tag updater changes its argument in place. It pushes the marker tag
  onto the array of the entry before it sends the update, so after any call on an entry
  whose \<open>tags\<close> is an array the entry holds the marker tag and the request sent carries
  it, also when the call returns \<open>false\<close> because the request failed in transport or was
  answered with user errors: nothing is restored.
\<close>

theorem updateProductTags_pushes_in_place:
  assumes arr: "node_tags node = TagArray ts"
      and run: "updateProductTags client node w = (r, node', w')"
  shows "node_tags node' = TagArray (pushTag ts)
         \<and> TAG_NAME \<in> set (pushTag ts)
         \<and> trace w' = trace w @ [UpdateRequest (node_id node) (pushTag ts)]
         \<and> ((\<exists>e. fst (productUpdate client (node_id node) (pushTag ts) (service w)) = Inl e)
              \<longrightarrow> r = Inr False)
         \<and> ((\<exists>errs. errs \<noteq> [] \<and>
                 fst (productUpdate client (node_id node) (pushTag ts) (service w)) = Inr errs)
              \<longrightarrow> r = Inr False)"
proof -
  have t: "tagsOf node = ts" by (simp add: tagsOf_def arr)
  from run have r: "r = Inr (fst (request_update client (node_id node) (pushTag ts) w) = Inr [])"
    and n: "node' = node\<lparr>node_tags := TagArray (pushTag ts)\<rparr>"
    and w: "w' = snd (request_update client (node_id node) (pushTag ts) w)"
    by (simp_all add: updateProductTags_unfold Let_def t arr)
  show ?thesis
    by (auto simp: r n w request_update_trace request_update_fst pushTag_contains)
qed

theorem updateProductTags_pushes_in_place_witness:
  "node_tags (widgetNode ''1'' ''A'' ''Acme Co'' [''sale'']) = TagArray [''sale'']
   \<and> updateProductTags offlineClient (widgetNode ''1'' ''A'' ''Acme Co'' [''sale'']) emptyWorld =
       (Inr False, widgetNode ''1'' ''A'' ''Acme Co'' [''sale'', TAG_NAME],
        \<lparr>service = (), trace = [UpdateRequest ''gid://shopify/Product/1'' [''sale'', TAG_NAME]]\<rparr>)
   \<and> fst (productUpdate offlineClient ''gid://shopify/Product/1'' [''sale'', TAG_NAME] ()) =
       Inl (Error ''socket hang up'')
   \<and> node_tags (widgetNode ''1'' ''A'' ''Acme Co'' [''sale'', TAG_NAME]) = TagArray (pushTag [''sale''])
   \<and> TAG_NAME \<in> set (pushTag [''sale''])"
proof -
  let ?w1 = "\<lparr>service = (), trace = [UpdateRequest ''gid://shopify/Product/1'' [''sale'', TAG_NAME]]\<rparr>"
  have arr: "node_tags (widgetNode ''1'' ''A'' ''Acme Co'' [''sale'']) = TagArray [''sale'']"
    by (simp add: widgetNode_def)
  have run: "updateProductTags offlineClient (widgetNode ''1'' ''A'' ''Acme Co'' [''sale'']) emptyWorld =
       (Inr False, widgetNode ''1'' ''A'' ''Acme Co'' [''sale'', TAG_NAME], ?w1)"
    by (simp add: updater_defs example_defs Let_def)
  have err: "fst (productUpdate offlineClient ''gid://shopify/Product/1'' [''sale'', TAG_NAME] ()) =
       Inl (Error ''socket hang up'')"
    by (simp add: example_defs)
  from updateProductTags_pushes_in_place[OF arr run]
  have "node_tags (widgetNode ''1'' ''A'' ''Acme Co'' [''sale'', TAG_NAME]) = TagArray (pushTag [''sale''])"
    and "TAG_NAME \<in> set (pushTag [''sale''])"
    by blast+
  with arr run err show ?thesis by blast
qed

text \<open>
  When \<open>tags\<close> is not an array the tag is pushed onto a fresh array: the request carries
  the marker tag alone and the entry is left as it was.
\<close>

lemma updateProductTags_not_array:
  assumes "node_tags node = NotArray"
      and "updateProductTags client node w = (r, node', w')"
  shows "node' = node \<and> trace w' = trace w @ [UpdateRequest (node_id node) [TAG_NAME]]"
  using assms
  by (auto simp: updateProductTags_unfold Let_def tagsOf_def pushTag_def request_update_trace)


section \<open>The loop\<close>

subsection \<open>Pacing\<close>

lemma loopBody_trace:
  "\<exists>evs. trace (world (loopBody client st p)) =
           trace (world st) @ evs @ [Delay RATE_LIMIT_DELAY]
         \<and> evs \<noteq> [] \<and> (\<forall>e \<in> set evs. \<not> isDelay e)"
proof (cases rule: loopBody_cases[of client p st])
  case (NotFound w1)
  have "trace (world (loopBody client st p)) =
          trace (world st) @ [SearchRequest (queryFor (title p))] @ [Delay RATE_LIMIT_DELAY]"
    by (simp add: NotFound(2) setTimeout_def findProduct_trace[OF NotFound(1)])
  moreover have "\<forall>e \<in> set [SearchRequest (queryFor (title p))]. \<not> isDelay e"
    by (simp add: isDelay_def)
  ultimately show ?thesis by blast
next
  case (Tagged node w1 node' w2)
  have "trace (world (loopBody client st p)) =
          trace (world st) @ [SearchRequest (queryFor (title p)),
             UpdateRequest (node_id node) (pushTag (tagsOf node))] @ [Delay RATE_LIMIT_DELAY]"
    by (simp add: Tagged(3) setTimeout_def findProduct_trace[OF Tagged(1)]
        updateProductTags_trace[OF Tagged(2)])
  moreover have "\<forall>e \<in> set [SearchRequest (queryFor (title p)),
             UpdateRequest (node_id node) (pushTag (tagsOf node))]. \<not> isDelay e"
    by (simp add: isDelay_def)
  ultimately show ?thesis by blast
next
  case (TagFailed node w1 node' w2)
  have "trace (world (loopBody client st p)) =
          trace (world st) @ [SearchRequest (queryFor (title p)),
             UpdateRequest (node_id node) (pushTag (tagsOf node))] @ [Delay RATE_LIMIT_DELAY]"
    by (simp add: TagFailed(3) setTimeout_def findProduct_trace[OF TagFailed(1)]
        updateProductTags_trace[OF TagFailed(2)])
  moreover have "\<forall>e \<in> set [SearchRequest (queryFor (title p)),
             UpdateRequest (node_id node) (pushTag (tagsOf node))]. \<not> isDelay e"
    by (simp add: isDelay_def)
  ultimately show ?thesis by blast
qed

lemma loopBody_delays:
  "delays (trace (world (loopBody client st p))) = delays (trace (world st)) + 1"
proof -
  obtain evs where
    t: "trace (world (loopBody client st p)) = trace (world st) @ evs @ [Delay RATE_LIMIT_DELAY]"
    and n: "\<forall>e \<in> set evs. \<not> isDelay e"
    using loopBody_trace[of client st p] by blast
  from n have "filter isDelay evs = []" by (simp add: filter_empty_conv)
  then show ?thesis by (simp add: t delays_def isDelay_def)
qed

lemma loopBody_last:
  "last (trace (world (loopBody client st p))) = Delay RATE_LIMIT_DELAY"
  using loopBody_trace[of client st p] by auto

lemma foldl_delays:
  "delays (trace (world (foldl (loopBody client) st products))) =
     delays (trace (world st)) + length products"
  by (induction products arbitrary: st) (simp_all add: loopBody_delays)

lemma foldl_last:
  "products \<noteq> [] \<Longrightarrow>
     last (trace (world (foldl (loopBody client) st products))) = Delay RATE_LIMIT_DELAY"
  by (induction products rule: rev_induct) (simp_all add: loopBody_last)

text \<open>
  Claim C8: after each row has reached its end (tagged, tag failed, not found, or an
  error) the loop waits the fixed pacing interval before it goes on, also after the last
  row; the pause is skipped for no row. For every catalog, every state of the loop and
  every row, the iteration adds to the trace its requests and then one pause of
  \<open>RATE_LIMIT_DELAY\<close>; a run over \<open>products\<close> makes as many pauses as there are rows,
  and its last event is a pause.
\<close>

theorem pacing_after_every_row:
  "(\<exists>evs. trace (world (loopBody client st p)) =
            trace (world st) @ evs @ [Delay RATE_LIMIT_DELAY]
          \<and> evs \<noteq> [] \<and> (\<forall>e \<in> set evs. \<not> isDelay e))
   \<and> delays (trace (world (processLoop client products w))) =
       delays (trace w) + length products
   \<and> (products \<noteq> [] \<longrightarrow>
        last (trace (world (processLoop client products w))) = Delay RATE_LIMIT_DELAY)"
  using loopBody_trace[of client st p] foldl_delays[of client "initial w" products]
    foldl_last[of products client "initial w"]
  by (simp add: processLoop_def initial_def)

theorem pacing_after_every_row_witness:
  "demoRows \<noteq> []
   \<and> delays (trace (world (processLoop demoClient demoRows emptyWorld))) = 4
   \<and> last (trace (world (processLoop demoClient demoRows emptyWorld))) = Delay 500
   \<and> trace (world (processLoop demoClient demoRows emptyWorld)) =
       [SearchRequest (widgetQuery ''A''),
        UpdateRequest ''gid://shopify/Product/1'' [''sale'', TAG_NAME], Delay 500,
        SearchRequest (widgetQuery ''B''), Delay 500,
        SearchRequest (widgetQuery ''C''),
        UpdateRequest ''gid://shopify/Product/3'' [''sale'', TAG_NAME], Delay 500,
        SearchRequest (widgetQuery ''D''), Delay 500]"
proof -
  have ne: "demoRows \<noteq> []" by (simp add: demoRows_def)
  have len: "length demoRows = 4" by (simp add: demoRows_def)
  from pacing_after_every_row[of demoClient "initial emptyWorld" "widget ''A''" demoRows emptyWorld] ne
  have d: "delays (trace (world (processLoop demoClient demoRows emptyWorld))) =
             delays (trace emptyWorld) + length demoRows"
    and l: "last (trace (world (processLoop demoClient demoRows emptyWorld))) =
              Delay RATE_LIMIT_DELAY"
    by blast+
  have t: "trace (world (processLoop demoClient demoRows emptyWorld)) =
       [SearchRequest (widgetQuery ''A''),
        UpdateRequest ''gid://shopify/Product/1'' [''sale'', TAG_NAME], Delay 500,
        SearchRequest (widgetQuery ''B''), Delay 500,
        SearchRequest (widgetQuery ''C''),
        UpdateRequest ''gid://shopify/Product/3'' [''sale'', TAG_NAME], Delay 500,
        SearchRequest (widgetQuery ''D''), Delay 500]"
    by (simp add: driver_defs matcher_defs updater_defs example_defs string_defs Let_def)
  from d have d': "delays (trace (world (processLoop demoClient demoRows emptyWorld))) = 4"
    by (simp add: len emptyWorld_def delays_def)
  from l have l': "last (trace (world (processLoop demoClient demoRows emptyWorld))) = Delay 500"
    by (simp add: RATE_LIMIT_DELAY_def)
  from ne d' l' t show ?thesis by blast
qed

subsection \<open>The ledgers\<close>

lemma loopBody_accounted: "accounted st \<Longrightarrow> accounted (loopBody client st p)"
  by (cases rule: loopBody_cases[of client p st]) (simp_all add: accounted_def)

lemma loopBody_processed: "processed (loopBody client st p) = processed st + 1"
  by (cases rule: loopBody_cases[of client p st]) simp_all

lemma foldl_accounted:
  "accounted st \<Longrightarrow> accounted (foldl (loopBody client) st products)"
  by (induction products arbitrary: st) (simp_all add: loopBody_accounted)

lemma foldl_processed:
  "processed (foldl (loopBody client) st products) = processed st + length products"
  by (induction products arbitrary: st) (simp_all add: loopBody_processed)

text \<open>
  What holds of the two ledgers in every run: together with the rows that were matched
  and not tagged they count the rows. A row whose update fails is counted in
  \<open>matched\<close> only.
\<close>

lemma ledger_accounts:
  "length (successfullyTagged (processLoop client products w)) +
   length (notFound (processLoop client products w)) +
   (matched (processLoop client products w) - tagged (processLoop client products w))
   = length products"
proof -
  have "accounted (initial w)" by (simp add: accounted_def initial_def)
  from foldl_accounted[OF this, of client products]
    foldl_processed[of client "initial w" products]
  show ?thesis by (simp add: processLoop_def accounted_def initial_def)
qed

lemma loopBody_TagFailed_ledgers:
  assumes "fst (findProduct client (title p) (vendor p) (productType p) (world st)) =
             Inr (Some node)"
      and "fst (updateProductTags client node
                 (snd (findProduct client (title p) (vendor p) (productType p) (world st)))) =
             Inr False"
  shows "successfullyTagged (loopBody client st p) = successfullyTagged st \<and>
         notFound (loopBody client st p) = notFound st"
  using assms by (cases rule: loopBody_cases[of client p st]) auto

lemma loopBody_ledgerRows:
  "ledgerRows (loopBody client st p) \<subseteq> insert p (ledgerRows st)"
  by (cases rule: loopBody_cases[of client p st]) (auto simp: spread_def ledgerRows_def)

lemma foldl_ledgerRows:
  "ledgerRows (foldl (loopBody client) st products) \<subseteq> set products \<union> ledgerRows st"
proof (induction products arbitrary: st)
  case Nil
  then show ?case by simp
next
  case (Cons p ps)
  have "ledgerRows (foldl (loopBody client) (loopBody client st p) ps)
          \<subseteq> set ps \<union> ledgerRows (loopBody client st p)" by (rule Cons)
  with loopBody_ledgerRows[of client st p]
  have "ledgerRows (foldl (loopBody client) (loopBody client st p) ps)
          \<subseteq> set ps \<union> insert p (ledgerRows st)" by blast
  then show ?case by simp
qed

lemma processLoop_ledgerRows:
  "ledgerRows (processLoop client products w) \<subseteq> set products"
  using foldl_ledgerRows[of client "initial w" products]
  by (simp add: processLoop_def) (simp add: ledgerRows_def initial_def)

text \<open>
  Claim C1: every source row is in exactly one of the ledgers \<open>tagged\<close> and
  \<open>notFound\<close>, so that their lengths add up to the number of source rows; a row that is
  matched and whose tag update fails goes to \<open>notFound\<close>. The loop pushes such a row onto
  neither ledger. In the run below the catalog answers the update of Widget C with a
  user error: four rows are read, one is tagged, two are not found, and Widget C is in
  no ledger.
\<close>

theorem tag_failed_row_in_no_ledger:
  "readCsv demoRecords = demoRows
   \<and> length (readCsv demoRecords) = 4
   \<and> widget ''C'' \<in> set (readCsv demoRecords)
   \<and> map originalData (successfullyTagged
        (fst (processTopProducts demoClient ''2024-05-01_09-30'' demoRecords emptyWorld))) =
       [widget ''A'']
   \<and> notFound (fst (processTopProducts demoClient ''2024-05-01_09-30'' demoRecords emptyWorld)) =
       [widget ''B'', widget ''D'']
   \<and> length (successfullyTagged
        (fst (processTopProducts demoClient ''2024-05-01_09-30'' demoRecords emptyWorld))) +
     length (notFound
        (fst (processTopProducts demoClient ''2024-05-01_09-30'' demoRecords emptyWorld))) = 3
   \<and> widget ''C'' \<notin> ledgerRows
        (fst (processTopProducts demoClient ''2024-05-01_09-30'' demoRecords emptyWorld))"
proof -
  have rd: "readCsv demoRecords = demoRows"
    by (simp add: reader_defs string_defs widgetRecord_def widget_def demoRecords_def demoRows_def)
  have len: "length demoRows = 4" and mem: "widget ''C'' \<in> set demoRows"
    and ne: "demoRows \<noteq> []"
    by (simp_all add: demoRows_def)
  have run: "fst (processTopProducts demoClient ts demoRecords emptyWorld) =
               processLoop demoClient demoRows emptyWorld" for ts
    by (simp add: processTopProducts_def rd ne Let_def)
  have st: "successfullyTagged (processLoop demoClient demoRows emptyWorld) =
            [spread (widgetNode ''1'' ''A'' ''Acme Co'' [''sale'', TAG_NAME]) (widget ''A'')]"
    by (simp add: driver_defs matcher_defs updater_defs example_defs string_defs Let_def)
  have nf: "notFound (processLoop demoClient demoRows emptyWorld) = [widget ''B'', widget ''D'']"
    by (simp add: driver_defs matcher_defs updater_defs example_defs string_defs Let_def)
  have c: "widget ''C'' \<noteq> widget ''A''" "widget ''C'' \<noteq> widget ''B''" "widget ''C'' \<noteq> widget ''D''"
    by (simp_all add: widget_def)
  show ?thesis
    using c mem by (simp add: run rd len st nf ledgerRows_def spread_def)
qed


section \<open>Reading the rows\<close>

text \<open>
  The key found for a word is the first key of the record whose lower-case form
  contains the word, and the record has a value at it.
\<close>

lemma findKey_Some:
  assumes "findKey word r = Some k"
  shows "k \<in> fst ` set r \<and> (\<exists>a b. toLowerCase k = a @ word @ b)"
proof -
  from assms obtain i where "i < length (map fst r)" "map fst r ! i = k"
    "includes_str (toLowerCase k) word"
    unfolding findKey_def find_Some_iff by blast
  then show ?thesis
    by (metis includes_str_iff nth_mem set_map)
qed

lemma findKey_None:
  "findKey word r = None \<longleftrightarrow> (\<forall>k \<in> fst ` set r. \<not> (\<exists>a b. toLowerCase k = a @ word @ b))"
  by (simp add: findKey_def find_None_iff includes_str_iff)

lemma valueAt_found:
  assumes "findKey word r = Some k"
  shows "\<exists>t. valueAt r (findKey word r) = Some t \<and> (k, t) \<in> set r"
proof -
  from findKey_Some[OF assms] have "k \<in> fst ` set r" by simp
  then obtain t where "map_of r k = Some t"
    by (metis domD dom_map_of_conv_image_fst)
  then show ?thesis
    using assms by (auto simp: valueAt_def dest: map_of_SomeD)
qed

lemma onData_pushes:
  assumes "valueAt r (findKey ''title'' r) = Some t"
      and "valueAt r (findKey ''vendor'' r) = Some v"
      and "valueAt r (findKey ''type'' r) = Some p"
      and "t \<noteq> []" and "v \<noteq> []" and "p \<noteq> []"
  shows "onData products r =
           products @ [\<lparr>title = trim t, vendor = trim v, productType = trim p\<rparr>]"
  using assms by (simp add: onData_def truthy_def)

lemma onData_skips:
  assumes "\<not> (\<exists>t v p. valueAt r (findKey ''title'' r) = Some t \<and>
                     valueAt r (findKey ''vendor'' r) = Some v \<and>
                     valueAt r (findKey ''type'' r) = Some p \<and>
                     t \<noteq> [] \<and> v \<noteq> [] \<and> p \<noteq> [])"
  shows "onData products r = products"
  using assms by (auto simp: onData_def truthy_def Let_def split: option.splits)

lemma onData_append: "onData products r = products @ onData [] r"
proof (cases "\<exists>t v p. valueAt r (findKey ''title'' r) = Some t \<and>
                     valueAt r (findKey ''vendor'' r) = Some v \<and>
                     valueAt r (findKey ''type'' r) = Some p \<and>
                     t \<noteq> [] \<and> v \<noteq> [] \<and> p \<noteq> []")
  case True
  then obtain t v p where "valueAt r (findKey ''title'' r) = Some t"
    "valueAt r (findKey ''vendor'' r) = Some v" "valueAt r (findKey ''type'' r) = Some p"
    "t \<noteq> []" "v \<noteq> []" "p \<noteq> []" by blast
  then show ?thesis by (simp add: onData_pushes)
next
  case False
  then show ?thesis by (simp add: onData_skips)
qed

lemma foldl_onData:
  "foldl onData products rows = products @ concat (map (onData []) rows)"
proof (induction rows arbitrary: products)
  case Nil
  then show ?case by simp
next
  case (Cons r rows)
  have "foldl onData (onData products r) rows =
          onData products r @ concat (map (onData []) rows)" by (rule Cons)
  then show ?case using onData_append[of products r] by simp
qed

lemma readCsv_concat: "readCsv rows = concat (map (onData []) rows)"
  by (simp add: readCsv_def foldl_onData)

lemma processTopProducts_ledgerRows:
  "ledgerRows (fst (processTopProducts client ts rows w)) \<subseteq> set (readCsv rows)"
proof (cases "readCsv rows = []")
  case True
  then show ?thesis
    by (simp add: processTopProducts_def ledgerRows_def initial_def)
next
  case False
  then show ?thesis
    using processLoop_ledgerRows[of client "readCsv rows" w]
    by (simp add: processTopProducts_def Let_def)
qed

text \<open>
  When one key is found for two words, the two fields of the row are the same cell.
\<close>

lemma onData_shared_key:
  assumes "findKey ''title'' r = findKey ''type'' r" and "onData [] r = [row]"
  shows "title row = productType row"
proof (cases "\<exists>t v p. valueAt r (findKey ''title'' r) = Some t \<and>
                     valueAt r (findKey ''vendor'' r) = Some v \<and>
                     valueAt r (findKey ''type'' r) = Some p \<and>
                     t \<noteq> [] \<and> v \<noteq> [] \<and> p \<noteq> []")
  case True
  then obtain t v p where h: "valueAt r (findKey ''title'' r) = Some t"
    "valueAt r (findKey ''vendor'' r) = Some v" "valueAt r (findKey ''type'' r) = Some p"
    "t \<noteq> []" "v \<noteq> []" "p \<noteq> []" by blast
  from h(1) h(3) assms(1) have "t = p" by simp
  with onData_pushes[OF h, of "[]"] assms(2) show ?thesis by auto
next
  case False
  with assms(2) show ?thesis by (simp add: onData_skips)
qed

text \<open>A title cell that is one no-break space yields a row with an empty title.\<close>

lemma onData_no_break_space_title:
  "onData [] [(''Title'', [CHR 0xA0]), (''Vendor'', ''Acme''), (''Type'', ''Mug'')] =
     [\<lparr>title = [], vendor = ''Acme'', productType = ''Mug''\<rparr>]"
  by (simp add: reader_defs string_defs)

text \<open>
  Claim C6, as stated: the row normalizer yields a source row if and only if the three
  values found by the header match are present and non-empty after trimming, and a
  record is skipped otherwise. The test of the handler is made on the values as the
  parser delivers them, before the trim: a record whose title cell is one space has a
  title that is empty after trimming, and still yields a row, with an empty title,
  which the run then pushes onto \<open>notFound\<close>.
\<close>

theorem blank_title_yields_row:
  "valueAt blankTitleRecord (findKey ''title'' blankTitleRecord) = Some '' ''
   \<and> trim '' '' = []
   \<and> onData [] blankTitleRecord = [\<lparr>title = [], vendor = ''Acme'', productType = ''Mug''\<rparr>]
   \<and> notFound (fst (processTopProducts (tableClient [] []) ''2024-05-01_09-30''
        [blankTitleRecord] emptyWorld)) =
       [\<lparr>title = [], vendor = ''Acme'', productType = ''Mug''\<rparr>]"
proof -
  have v: "valueAt blankTitleRecord (findKey ''title'' blankTitleRecord) = Some '' ''"
    by (simp add: reader_defs string_defs blankTitleRecord_def)
  have t: "trim '' '' = []" by (simp add: string_defs)
  have d: "onData [] blankTitleRecord = [\<lparr>title = [], vendor = ''Acme'', productType = ''Mug''\<rparr>]"
    by (simp add: reader_defs string_defs blankTitleRecord_def)
  have rd: "readCsv [blankTitleRecord] = [\<lparr>title = [], vendor = ''Acme'', productType = ''Mug''\<rparr>]"
    by (simp add: readCsv_def d)
  have n: "notFound (fst (processTopProducts (tableClient [] []) ''2024-05-01_09-30''
        [blankTitleRecord] emptyWorld)) =
       [\<lparr>title = [], vendor = ''Acme'', productType = ''Mug''\<rparr>]"
    by (simp add: processTopProducts_def rd Let_def processLoop_def initial_def loopBody_def
        setTimeout_def matcher_defs tableClient_def emptyWorld_def string_defs)
  from v t d n show ?thesis by blast
qed

text \<open>
  Claim C6, amended: the row normalizer yields a source row if and only if the three
  values found by the case-insensitive substring header match are present and non-empty
  as the parser delivers them, before the normalizer's own trim; the row holds the
  trimmed values. Otherwise the record is skipped: the list of products is left as it
  was. The rows read are the rows the records yield, in order, and every row in either
  ledger of a run is one of them, so a skipped record is in no ledger.
\<close>

theorem onData_yields_iff_values_nonempty:
  "(\<forall>t v p. valueAt r (findKey ''title'' r) = Some t \<and>
            valueAt r (findKey ''vendor'' r) = Some v \<and>
            valueAt r (findKey ''type'' r) = Some p \<and>
            t \<noteq> [] \<and> v \<noteq> [] \<and> p \<noteq> [] \<longrightarrow>
      onData products r =
        products @ [\<lparr>title = trim t, vendor = trim v, productType = trim p\<rparr>])
   \<and> (\<not> (\<exists>t v p. valueAt r (findKey ''title'' r) = Some t \<and>
            valueAt r (findKey ''vendor'' r) = Some v \<and>
            valueAt r (findKey ''type'' r) = Some p \<and>
            t \<noteq> [] \<and> v \<noteq> [] \<and> p \<noteq> []) \<longrightarrow>
      onData products r = products)
   \<and> readCsv rows = concat (map (onData []) rows)
   \<and> ledgerRows (fst (processTopProducts client ts rows w)) \<subseteq> set (readCsv rows)"
proof (intro conjI allI impI)
  fix t v p
  assume "valueAt r (findKey ''title'' r) = Some t \<and>
            valueAt r (findKey ''vendor'' r) = Some v \<and>
            valueAt r (findKey ''type'' r) = Some p \<and>
            t \<noteq> [] \<and> v \<noteq> [] \<and> p \<noteq> []"
  then show "onData products r =
        products @ [\<lparr>title = trim t, vendor = trim v, productType = trim p\<rparr>]"
    by (simp add: onData_pushes)
next
  assume "\<not> (\<exists>t v p. valueAt r (findKey ''title'' r) = Some t \<and>
            valueAt r (findKey ''vendor'' r) = Some v \<and>
            valueAt r (findKey ''type'' r) = Some p \<and>
            t \<noteq> [] \<and> v \<noteq> [] \<and> p \<noteq> [])"
  then show "onData products r = products" by (rule onData_skips)
next
  show "readCsv rows = concat (map (onData []) rows)" by (rule readCsv_concat)
next
  show "ledgerRows (fst (processTopProducts client ts rows w)) \<subseteq> set (readCsv rows)"
    by (rule processTopProducts_ledgerRows)
qed

theorem onData_yields_iff_values_nonempty_witness:
  "valueAt (widgetRecord ''A'') (findKey ''title'' (widgetRecord ''A'')) = Some ''Widget A''
   \<and> valueAt (widgetRecord ''A'') (findKey ''vendor'' (widgetRecord ''A'')) = Some ''Acme Co''
   \<and> valueAt (widgetRecord ''A'') (findKey ''type'' (widgetRecord ''A'')) = Some ''Gadgets''
   \<and> onData [] (widgetRecord ''A'') = [widget ''A'']
   \<and> valueAt noVendorRecord (findKey ''vendor'' noVendorRecord) = None
   \<and> onData [widget ''A''] noVendorRecord = [widget ''A'']"
proof -
  have a: "valueAt (widgetRecord ''A'') (findKey ''title'' (widgetRecord ''A'')) = Some ''Widget A''"
    "valueAt (widgetRecord ''A'') (findKey ''vendor'' (widgetRecord ''A'')) = Some ''Acme Co''"
    "valueAt (widgetRecord ''A'') (findKey ''type'' (widgetRecord ''A'')) = Some ''Gadgets''"
    by (simp_all add: reader_defs string_defs widgetRecord_def)
  have ne: "''Widget A'' \<noteq> []" "''Acme Co'' \<noteq> []" "''Gadgets'' \<noteq> []" by simp_all
  have tr: "\<lparr>title = trim ''Widget A'', vendor = trim ''Acme Co'', productType = trim ''Gadgets''\<rparr> =
              widget ''A''"
    by (simp add: widget_def string_defs)
  from onData_yields_iff_values_nonempty[of "widgetRecord ''A''" "[]"] a ne
  have "onData [] (widgetRecord ''A'') =
          [] @ [\<lparr>title = trim ''Widget A'', vendor = trim ''Acme Co'',
                 productType = trim ''Gadgets''\<rparr>]"
    by blast
  then have y: "onData [] (widgetRecord ''A'') = [widget ''A'']" by (simp add: tr)
  have b: "valueAt noVendorRecord (findKey ''vendor'' noVendorRecord) = None"
    by (simp add: reader_defs string_defs noVendorRecord_def)
  then have "\<not> (\<exists>t v p. valueAt noVendorRecord (findKey ''title'' noVendorRecord) = Some t \<and>
            valueAt noVendorRecord (findKey ''vendor'' noVendorRecord) = Some v \<and>
            valueAt noVendorRecord (findKey ''type'' noVendorRecord) = Some p \<and>
            t \<noteq> [] \<and> v \<noteq> [] \<and> p \<noteq> [])"
    by simp
  with onData_yields_iff_values_nonempty[of noVendorRecord "[widget ''A'']"]
  have s: "onData [widget ''A''] noVendorRecord = [widget ''A'']" by blast
  from a y b s show ?thesis by blast
qed

text \<open>
  Claim C10: the three headers are found independently, so a header that contains more
  than one keyword is taken for two fields at once. In the record below the one header
  \<open>Title Type\<close> is found for \<open>title\<close> and for \<open>type\<close>, and the row has the same cell as
  its title and as its product type: the three keys found need not be distinct.
\<close>

theorem one_header_for_two_fields:
  "findKey ''title'' twoKeywordRecord = Some ''Title Type''
   \<and> findKey ''type'' twoKeywordRecord = Some ''Title Type''
   \<and> findKey ''vendor'' twoKeywordRecord = Some ''Vendor''
   \<and> onData [] twoKeywordRecord = [\<lparr>title = ''Mug'', vendor = ''Acme'', productType = ''Mug''\<rparr>]"
  by (simp add: reader_defs string_defs twoKeywordRecord_def)


section \<open>The reports\<close>

lemma paths_differ: "successPath ts \<noteq> notFoundPath ts"
  by (simp add: successPath_def notFoundPath_def)

lemma successData_gid:
  assumes "i < length taggedProducts" and "node_id (taggedProducts ! i) = gidPrefix @ rest"
  shows "col_gid (successData taggedProducts ! i) = rest"
  using assms by (simp add: successData_def replaceFirst_prefix)

text \<open>
  Claim C7: the report emitter writes the tagged report if and only if the tagged
  sequence is non-empty, and the not-found report if and only if the not-found sequence
  is non-empty, so that no file is written for an empty sequence; in the tagged report
  the \<open>gid\<close> of a row is the identifier of the catalog entry without its prefix
  \<open>gid://shopify/Product/\<close>, and in the not-found report the \<open>gid\<close> is the empty string.
\<close>

theorem generateReports_files:
  "((\<exists>f \<in> set (generateReports ts taggedProducts notFoundProducts). path f = successPath ts)
      \<longleftrightarrow> taggedProducts \<noteq> [])
   \<and> ((\<exists>f \<in> set (generateReports ts taggedProducts notFoundProducts). path f = notFoundPath ts)
      \<longleftrightarrow> notFoundProducts \<noteq> [])
   \<and> (\<forall>f \<in> set (generateReports ts taggedProducts notFoundProducts).
        records f \<noteq> [] \<and>
        (path f = successPath ts \<and> records f = successData taggedProducts \<or>
         path f = notFoundPath ts \<and> records f = notFoundData notFoundProducts))
   \<and> length (successData taggedProducts) = length taggedProducts
   \<and> (\<forall>i < length taggedProducts. \<forall>rest.
        node_id (taggedProducts ! i) = gidPrefix @ rest \<longrightarrow>
        col_gid (successData taggedProducts ! i) = rest)
   \<and> (\<forall>r \<in> set (notFoundData notFoundProducts). col_gid r = [])"
proof (intro conjI)
  show "(\<exists>f \<in> set (generateReports ts taggedProducts notFoundProducts). path f = successPath ts)
      \<longleftrightarrow> taggedProducts \<noteq> []"
    using paths_differ[of ts] by (auto simp: generateReports_def)
next
  show "(\<exists>f \<in> set (generateReports ts taggedProducts notFoundProducts). path f = notFoundPath ts)
      \<longleftrightarrow> notFoundProducts \<noteq> []"
    using paths_differ[of ts] by (auto simp: generateReports_def)
next
  show "\<forall>f \<in> set (generateReports ts taggedProducts notFoundProducts).
        records f \<noteq> [] \<and>
        (path f = successPath ts \<and> records f = successData taggedProducts \<or>
         path f = notFoundPath ts \<and> records f = notFoundData notFoundProducts)"
    by (auto simp: generateReports_def successData_def notFoundData_def)
next
  show "length (successData taggedProducts) = length taggedProducts"
    by (simp add: successData_def)
next
  show "\<forall>i < length taggedProducts. \<forall>rest.
        node_id (taggedProducts ! i) = gidPrefix @ rest \<longrightarrow>
        col_gid (successData taggedProducts ! i) = rest"
    by (simp add: successData_gid)
next
  show "\<forall>r \<in> set (notFoundData notFoundProducts). col_gid r = []"
    by (auto simp: notFoundData_def)
qed

theorem generateReports_files_witness:
  "[spread (widgetNode ''1'' ''A'' ''Acme Co'' [''sale'', TAG_NAME]) (widget ''A'')] \<noteq> []
   \<and> node_id ([spread (widgetNode ''1'' ''A'' ''Acme Co'' [''sale'', TAG_NAME]) (widget ''A'')] ! 0) =
       gidPrefix @ ''1''
   \<and> col_gid (successData
        [spread (widgetNode ''1'' ''A'' ''Acme Co'' [''sale'', TAG_NAME]) (widget ''A'')] ! 0) = ''1''
   \<and> generateReports ''2024-05-01_09-30''
        [spread (widgetNode ''1'' ''A'' ''Acme Co'' [''sale'', TAG_NAME]) (widget ''A'')] [] =
       [\<lparr>path = ''intake/tagged_products_2024-05-01_09-30.csv'',
         records = [\<lparr>col_gid = ''1'', col_title = ''Widget A'', col_productType = ''Gadgets'',
                     col_vendor = ''Acme Co''\<rparr>]\<rparr>]
   \<and> generateReports ''2024-05-01_09-30'' [] [widget ''B''] =
       [\<lparr>path = ''intake/not_found_products_2024-05-01_09-30.csv'',
         records = [\<lparr>col_gid = [], col_title = ''Widget B'', col_productType = ''Gadgets'',
                     col_vendor = ''Acme Co''\<rparr>]\<rparr>]
   \<and> generateReports ''2024-05-01_09-30'' [] [] = []"
proof -
  let ?tp = "[spread (widgetNode ''1'' ''A'' ''Acme Co'' [''sale'', TAG_NAME]) (widget ''A'')]"
  have ne: "?tp \<noteq> []" by simp
  have i: "0 < length ?tp" by simp
  have ident: "node_id (?tp ! 0) = gidPrefix @ ''1''"
    by (simp add: spread_def widgetNode_def gidPrefix_def)
  from generateReports_files[of "''2024-05-01_09-30''" ?tp "[]"] i ident
  have g: "col_gid (successData ?tp ! 0) = ''1''" by blast
  have r1: "generateReports ''2024-05-01_09-30'' ?tp [] =
       [\<lparr>path = ''intake/tagged_products_2024-05-01_09-30.csv'',
         records = [\<lparr>col_gid = ''1'', col_title = ''Widget A'', col_productType = ''Gadgets'',
                     col_vendor = ''Acme Co''\<rparr>]\<rparr>]"
    by (simp add: report_defs spread_def widgetNode_def widget_def)
  have r2: "generateReports ''2024-05-01_09-30'' [] [widget ''B''] =
       [\<lparr>path = ''intake/not_found_products_2024-05-01_09-30.csv'',
         records = [\<lparr>col_gid = [], col_title = ''Widget B'', col_productType = ''Gadgets'',
                     col_vendor = ''Acme Co''\<rparr>]\<rparr>]"
    by (simp add: report_defs widget_def)
  have r3: "generateReports ''2024-05-01_09-30'' [] [] = []"
    by (simp add: generateReports_def)
  from ne ident g r1 r2 r3 show ?thesis by blast
qed

text \<open>
  An identifier that does not contain the prefix is copied as it is.
\<close>

lemma successData_gid_without_prefix:
  assumes "i < length taggedProducts"
      and "\<not> includes_str (node_id (taggedProducts ! i)) gidPrefix"
  shows "col_gid (successData taggedProducts ! i) = node_id (taggedProducts ! i)"
  using assms by (simp add: successData_def replaceFirst_absent)

end
